theory Spec2Isabelle
  imports Complex_Main
begin

section \<open>The upload widget of fight-judge (frontend/index.js)\<close>

text \<open>
  The widget is one script: two constants, a handful of event listeners and the function
  \<open>handleFile\<close>. The page elements it touches are modelled as one record that every
  listener takes and returns. JavaScript strings are modelled as \<open>string\<close>, with code
  units in the Latin-1 range; file sizes are natural numbers.
\<close>

subsection \<open>Files and constants\<close>

text \<open>The three properties of a \<open>File\<close> object that the script reads.\<close>

record File =
  file_name :: string
  file_type :: string
  file_size :: nat

text \<open>\<open>const MAX_FILE_SIZE = 500 * 1024 * 1024\<close>\<close>

definition MAX_FILE_SIZE :: nat where
  "MAX_FILE_SIZE = 500 * 1024 * 1024"

text \<open>\<open>const ALLOWED_TYPES = [...]\<close>: declared by the script, read by none of its functions.\<close>

definition ALLOWED_TYPES :: "string list" where
  "ALLOWED_TYPES = [''video/mp4'', ''video/quicktime'', ''video/x-msvideo'']"

subsection \<open>String operations\<close>

text \<open>\<open>s.startsWith(p)\<close>\<close>

definition startsWith :: "string \<Rightarrow> string \<Rightarrow> bool" where
  "startsWith s p = (take (length p) s = p)"

text \<open>
  The regular expression \<open>/\.(mp4|mov|avi)$/i\<close>. With the flag \<open>i\<close> (and without \<open>u\<close>)
  both the pattern character and the input character are canonicalised by upper-casing;
  a code unit outside ASCII never canonicalises to an ASCII one, so for this pattern only
  the letters \<open>a\<close> to \<open>z\<close> matter, and the case mapping is the table of those letters.
\<close>

definition lower_letters :: string where
  "lower_letters = ''abcdefghijklmnopqrstuvwxyz''"

definition upper_letters :: string where
  "upper_letters = ''ABCDEFGHIJKLMNOPQRSTUVWXYZ''"

definition canonicalize :: "char \<Rightarrow> char" where
  "canonicalize c =
     (case map_of (zip lower_letters upper_letters) c of Some u \<Rightarrow> u | None \<Rightarrow> c)"

text \<open>The alternatives of the group \<open>(mp4|mov|avi)\<close>.\<close>

definition EXTENSIONS :: "string list" where
  "EXTENSIONS = [''mp4'', ''mov'', ''avi'']"

text \<open>
  One attempt of the matcher at a fixed start position, \<open>cs\<close> being the rest of the
  input from there: a literal dot, one of the alternatives, then the end of the input
  (\<open>$\<close> without the flag \<open>m\<close>).
\<close>

definition matches_at :: "string \<Rightarrow> bool" where
  "matches_at cs =
     (case cs of
        [] \<Rightarrow> False
      | c # rest \<Rightarrow>
          canonicalize c = canonicalize (CHR ''.'') \<and>
          map canonicalize rest \<in> set (map (map canonicalize) EXTENSIONS))"

text \<open>\<open>name.match(re)\<close> is truthy when the matcher succeeds at some start position.\<close>

fun regex_search :: "string \<Rightarrow> bool" where
  "regex_search [] = matches_at []"
| "regex_search (c # cs) = (if matches_at (c # cs) then True else regex_search cs)"

subsection \<open>The two guards of handleFile\<close>

text \<open>
  The first guard of \<open>handleFile\<close> rejects when
  \<open>!file.type.startsWith("video/") && !file.name.match(/\.(mp4|mov|avi)$/i)\<close>;
  \<open>type_check\<close> is the negation of that condition.
\<close>

definition type_check :: "File \<Rightarrow> bool" where
  "type_check f = (\<not> (\<not> startsWith (file_type f) ''video/'' \<and> \<not> regex_search (file_name f)))"

datatype Reason = InvalidType | TooLarge

datatype ValidationResult = Accepted | Rejected Reason

text \<open>
  The decision that the two guards of \<open>handleFile\<close> take, in their order: the first
  \<open>return\<close> is the type rejection, the second the size rejection, falling through is
  acceptance.
\<close>

definition validate :: "File \<Rightarrow> ValidationResult" where
  "validate f =
     (if \<not> startsWith (file_type f) ''video/'' \<and> \<not> regex_search (file_name f)
      then Rejected InvalidType
      else if file_size f > MAX_FILE_SIZE
      then Rejected TooLarge
      else Accepted)"

text \<open>ASCII lower-casing, for stating what a lower-cased filename suffix is.\<close>

definition to_lower :: "char \<Rightarrow> char" where
  "to_lower c =
     (case map_of (zip upper_letters lower_letters) c of Some l \<Rightarrow> l | None \<Rightarrow> c)"

subsection \<open>Number formatting\<close>

text \<open>
  The decimal digits of a non-negative integer, as \<open>Number.prototype.toFixed\<close> writes
  them (\<open>0\<close> is the single digit \<open>0\<close>).
\<close>

definition digit :: "nat \<Rightarrow> char" where
  "digit d = ''0123456789'' ! d"

function to_decimal :: "nat \<Rightarrow> string" where
  "to_decimal n =
     (if n < 10 then [digit n]
      else to_decimal (n div 10) @ [digit (n mod 10)])"
  by pat_completeness auto
termination
  by (relation "measure (\<lambda>n. n)") auto

declare to_decimal.simps [simp del]

text \<open>
  \<open>x.toFixed(2)\<close> for \<open>0 \<le> x < 10^21\<close>, following ECMA-262: \<open>n\<close> is the integer for
  which \<open>n / 100 - x\<close> is as close to zero as possible, the larger one when there are
  two; its digits are padded with zeros on the left to three characters, and the point goes
  before the last two. The script applies it to \<open>file.size / (1024 * 1024)\<close>; for an
  integer size below \<open>2^53\<close> that binary64 quotient is exact, so the argument is the
  rational number itself.
\<close>

definition toFixed2 :: "rat \<Rightarrow> string" where
  "toFixed2 x =
     (let n = nat \<lfloor>x * 100 + 1 / 2\<rfloor>;
          m = to_decimal n;
          m' = (if length m \<le> 2 then replicate (3 - length m) (CHR ''0'') @ m else m);
          k = length m'
      in take (k - 2) m' @ ''.'' @ drop (k - 2) m')"

text \<open>
  Reading a string of decimal digits back as a number, for stating which number the
  formatted size denotes.
\<close>

definition digit_value :: "char \<Rightarrow> nat" where
  "digit_value c = (case map_of (zip ''0123456789'' [0 ..< 10]) c of Some d \<Rightarrow> d | None \<Rightarrow> 0)"

definition decimal_value :: "string \<Rightarrow> nat" where
  "decimal_value cs = foldl (\<lambda>acc c. 10 * acc + digit_value c) 0 cs"

text \<open>The two template literals of \<open>handleFile\<close>.\<close>

definition name_text :: "File \<Rightarrow> string" where
  "name_text f = ''File: '' @ file_name f"

definition size_text :: "File \<Rightarrow> string" where
  "size_text f = ''Size: '' @ toFixed2 (of_nat (file_size f) / (1024 * 1024)) @ '' MB''"

text \<open>The display metadata of a file: the two strings that \<open>handleFile\<close> shows.\<close>

record DisplayMetadata =
  display_name :: string
  display_size :: string

definition describe :: "File \<Rightarrow> DisplayMetadata" where
  "describe f = \<lparr>display_name = name_text f, display_size = size_text f\<rparr>"

subsection \<open>The page\<close>

text \<open>
  \<open>URL.createObjectURL\<close> returns a fresh URL that keeps its file reachable until the
  URL is revoked or the document goes away. The URLs of the document are modelled as the
  list of files they stand for, a URL being its index in that list.
\<close>

datatype Src = NoSrc | BlobUrl nat

text \<open>
  What the listeners read and write: the class lists of the two containers, the source of
  the player, the value of the file input, the two text nodes, and as effects the alerts
  shown, the calls of \<open>videoInput.click()\<close> and the object URLs created.
\<close>

record Page =
  uploadContainer_classList :: "string list"
  videoPreview_classList :: "string list"
  videoPlayer_src :: Src
  videoInput_value :: string
  fileName_textContent :: string
  fileSize_textContent :: string
  alerts :: "string list"
  videoInput_clicks :: nat
  object_urls :: "File list"

text \<open>\<open>classList.add(t1, ...)\<close> appends each token that is not yet there.\<close>

definition classList_add :: "string list \<Rightarrow> string list \<Rightarrow> string list" where
  "classList_add tokens cl = fold (\<lambda>t acc. if t \<in> set acc then acc else acc @ [t]) tokens cl"

text \<open>\<open>classList.remove(t1, ...)\<close>\<close>

definition classList_remove :: "string list \<Rightarrow> string list \<Rightarrow> string list" where
  "classList_remove tokens cl = filter (\<lambda>c. c \<notin> set tokens) cl"

definition alert :: "string \<Rightarrow> Page \<Rightarrow> Page" where
  "alert msg s = s\<lparr>alerts := alerts s @ [msg]\<rparr>"

text \<open>\<open>function handleFile(file)\<close>\<close>

definition handleFile :: "File \<Rightarrow> Page \<Rightarrow> Page" where
  "handleFile f s =
     (if \<not> startsWith (file_type f) ''video/'' \<and> \<not> regex_search (file_name f)
      then alert ''Please upload a valid video file (MP4, MOV, or AVI)'' s
      else if file_size f > MAX_FILE_SIZE
      then alert ''File size must be less than 500MB'' s
      else
        let url = length (object_urls s) in
        s\<lparr>object_urls := object_urls s @ [f],
          videoPlayer_src := BlobUrl url,
          fileName_textContent := name_text f,
          fileSize_textContent := size_text f,
          uploadContainer_classList := classList_add [''hidden''] (uploadContainer_classList s),
          videoPreview_classList := classList_remove [''hidden''] (videoPreview_classList s)\<rparr>)"

subsection \<open>The listeners\<close>

text \<open>
  A click on the upload button runs the button's listener and then, bubbling, the
  container's, whose test \<open>e.target !== uploadBtn\<close> fails; a click elsewhere in the
  container runs only the container's listener, whose test succeeds.
\<close>

definition uploadBtn_click :: "Page \<Rightarrow> Page" where
  "uploadBtn_click s = s\<lparr>videoInput_clicks := Suc (videoInput_clicks s)\<rparr>"

definition uploadContainer_click :: "bool \<Rightarrow> Page \<Rightarrow> Page" where
  "uploadContainer_click target_is_uploadBtn s =
     (if \<not> target_is_uploadBtn then s\<lparr>videoInput_clicks := Suc (videoInput_clicks s)\<rparr> else s)"

definition uploadContainer_dragover :: "Page \<Rightarrow> Page" where
  "uploadContainer_dragover s =
     s\<lparr>uploadContainer_classList :=
         classList_add [''border-sky-500'', ''bg-sky-500/10'']
           (classList_remove [''border-white/30''] (uploadContainer_classList s))\<rparr>"

definition uploadContainer_dragleave :: "Page \<Rightarrow> Page" where
  "uploadContainer_dragleave s =
     s\<lparr>uploadContainer_classList :=
         classList_remove [''border-sky-500'', ''bg-sky-500/10'']
           (classList_add [''border-white/30''] (uploadContainer_classList s))\<rparr>"

text \<open>The \<open>drop\<close> listener; \<open>files\<close> is \<open>e.dataTransfer.files\<close>.\<close>

definition uploadContainer_drop :: "File list \<Rightarrow> Page \<Rightarrow> Page" where
  "uploadContainer_drop files s =
     (let s1 = s\<lparr>uploadContainer_classList :=
                   classList_remove [''border-sky-500'', ''bg-sky-500/10'']
                     (classList_add [''border-white/30''] (uploadContainer_classList s))\<rparr>
      in case files of [] \<Rightarrow> s1 | f # _ \<Rightarrow> handleFile f s1)"

text \<open>The \<open>change\<close> listener of the file input; \<open>files\<close> is \<open>e.target.files\<close>.\<close>

definition videoInput_change :: "File list \<Rightarrow> Page \<Rightarrow> Page" where
  "videoInput_change files s = (case files of [] \<Rightarrow> s | f # _ \<Rightarrow> handleFile f s)"

text \<open>The listener of the button that changes the video.\<close>

definition changeBtn_click :: "Page \<Rightarrow> Page" where
  "changeBtn_click s =
     s\<lparr>videoPlayer_src := NoSrc,
       videoInput_value := [],
       uploadContainer_classList := classList_remove [''hidden''] (uploadContainer_classList s),
       videoPreview_classList := classList_add [''hidden''] (videoPreview_classList s)\<rparr>"

definition analyzeBtn_click :: "Page \<Rightarrow> Page" where
  "analyzeBtn_click s = alert ''Video analysis will be implemented here!'' s"

text \<open>The events the script listens to, and the listeners each one runs.\<close>

datatype Event =
    Click_uploadBtn
  | Click_uploadContainer
  | DragOver
  | DragLeave
  | Drop "File list"
  | Change "File list"
  | Click_changeBtn
  | Click_analyzeBtn

fun fire :: "Event \<Rightarrow> Page \<Rightarrow> Page" where
  "fire Click_uploadBtn s = uploadContainer_click True (uploadBtn_click s)"
| "fire Click_uploadContainer s = uploadContainer_click False s"
| "fire DragOver s = uploadContainer_dragover s"
| "fire DragLeave s = uploadContainer_dragleave s"
| "fire (Drop files) s = uploadContainer_drop files s"
| "fire (Change files) s = videoInput_change files s"
| "fire Click_changeBtn s = changeBtn_click s"
| "fire Click_analyzeBtn s = analyzeBtn_click s"

text \<open>A session is a sequence of events, run in order.\<close>

fun run :: "Event list \<Rightarrow> Page \<Rightarrow> Page" where
  "run [] s = s"
| "run (e # es) s = run es (fire e s)"

text \<open>The file an object URL stands for, while the URL is allocated.\<close>

definition resolve :: "Page \<Rightarrow> nat \<Rightarrow> File option" where
  "resolve s u = (if u < length (object_urls s) then Some (object_urls s ! u) else None)"

text \<open>
  The part of the page that is the state of a session: what is staged, what is displayed,
  which container is hidden, which URLs are allocated. The highlighting classes of the
  drag feedback are left out.
\<close>

record Session =
  staged_src :: Src
  shown_name :: string
  shown_size :: string
  upload_hidden :: bool
  preview_hidden :: bool
  allocated :: "File list"
  input_value :: string

definition session :: "Page \<Rightarrow> Session" where
  "session s =
     \<lparr>staged_src = videoPlayer_src s,
      shown_name = fileName_textContent s,
      shown_size = fileSize_textContent s,
      upload_hidden = (''hidden'' \<in> set (uploadContainer_classList s)),
      preview_hidden = (''hidden'' \<in> set (videoPreview_classList s)),
      allocated = object_urls s,
      input_value = videoInput_value s\<rparr>"

text \<open>The metadata on display.\<close>

definition displayed :: "Page \<Rightarrow> DisplayMetadata" where
  "displayed s = \<lparr>display_name = fileName_textContent s, display_size = fileSize_textContent s\<rparr>"

text \<open>Concrete files and a concrete page, for the scenarios.\<close>

definition fight_mp4 :: File where
  "fight_mp4 = \<lparr>file_name = ''fight.mp4'', file_type = ''video/mp4'', file_size = 50000000\<rparr>"

definition fight_mkv :: File where
  "fight_mkv = \<lparr>file_name = ''fight.mkv'', file_type = ''video/x-matroska'', file_size = 1000000\<rparr>"

definition big_mp4 :: File where
  "big_mp4 = \<lparr>file_name = ''fight.mp4'', file_type = ''video/mp4'', file_size = 600000000\<rparr>"

definition clip_MOV :: File where
  "clip_MOV = \<lparr>file_name = ''clip.MOV'', file_type = [], file_size = 10000000\<rparr>"

definition big_txt :: File where
  "big_txt = \<lparr>file_name = ''notes.txt'', file_type = ''text/plain'', file_size = 600000000\<rparr>"

definition page0 :: Page where
  "page0 =
     \<lparr>uploadContainer_classList = [''border-white/30''],
      videoPreview_classList = [''hidden''],
      videoPlayer_src = NoSrc,
      videoInput_value = [],
      fileName_textContent = [],
      fileSize_textContent = [],
      alerts = [],
      videoInput_clicks = 0,
      object_urls = []\<rparr>"

section \<open>Properties\<close>

subsection \<open>Helper lemmas on the matcher\<close>

lemma canonicalize_to_lower: "canonicalize (to_lower c) = canonicalize c"
  by (simp add: canonicalize_def to_lower_def lower_letters_def upper_letters_def)

lemma regex_search_suffix: "matches_at cs \<Longrightarrow> regex_search (pre @ cs)"
proof (induction pre)
  case Nil
  then show ?case by (cases cs) simp_all
next
  case (Cons a pre)
  then show ?case by simp
qed

lemma matches_at_extension:
  assumes "map to_lower ext \<in> set EXTENSIONS"
  shows "matches_at (CHR ''.'' # ext)"
proof -
  from assms
  have "map canonicalize (map to_lower ext) \<in> set (map (map canonicalize) EXTENSIONS)"
    by (simp only: set_map imageI)
  moreover have "map canonicalize (map to_lower ext) = map canonicalize ext"
    by (simp add: canonicalize_to_lower)
  ultimately show ?thesis
    by (simp only: matches_at_def list.case simp_thms)
qed

lemma startsWith_ALLOWED_TYPES: "t \<in> set ALLOWED_TYPES \<Longrightarrow> startsWith t ''video/''"
  by (auto simp: ALLOWED_TYPES_def startsWith_def)

lemma handleFile_validate:
  "handleFile f s =
     (case validate f of
        Rejected InvalidType \<Rightarrow> alert ''Please upload a valid video file (MP4, MOV, or AVI)'' s
      | Rejected TooLarge \<Rightarrow> alert ''File size must be less than 500MB'' s
      | Accepted \<Rightarrow>
          s\<lparr>object_urls := object_urls s @ [f],
            videoPlayer_src := BlobUrl (length (object_urls s)),
            fileName_textContent := name_text f,
            fileSize_textContent := size_text f,
            uploadContainer_classList := classList_add [''hidden''] (uploadContainer_classList s),
            videoPreview_classList := classList_remove [''hidden''] (videoPreview_classList s)\<rparr>)"
  by (simp add: handleFile_def validate_def Let_def)

lemmas matcher_defs =
  startsWith_def matches_at_def canonicalize_def EXTENSIONS_def
  lower_letters_def upper_letters_def

subsection \<open>Type and size validation\<close>

text \<open>
  C1 (as stated, refuted): the candidate \<open>fight.mkv\<close> of type \<open>video/x-matroska\<close> and size
  1000000 has a type outside \<open>ALLOWED_TYPES\<close> and a name that the extension pattern does
  not match, and yet it is not rejected with \<open>InvalidType\<close>.
\<close>

theorem fight_mkv_not_invalid_type:
  "file_type fight_mkv \<notin> set ALLOWED_TYPES \<and>
   \<not> regex_search (file_name fight_mkv) \<and>
   validate fight_mkv \<noteq> Rejected InvalidType"
  by (simp add: fight_mkv_def ALLOWED_TYPES_def validate_def matcher_defs MAX_FILE_SIZE_def)

text \<open>
  C1 (amended): the type guard is lenient. \<open>fight.mkv\<close> of type \<open>video/x-matroska\<close> is
  accepted, because its type starts with \<open>video/\<close>; a candidate is rejected with
  \<open>InvalidType\<close> exactly when its type does not start with \<open>video/\<close> and its name does
  not end in \<open>.mp4\<close>, \<open>.mov\<close> or \<open>.avi\<close>, in any letter case. Membership in
  \<open>ALLOWED_TYPES\<close> plays no part.
\<close>

theorem invalid_type_iff_no_video_prefix_and_no_extension:
  "validate fight_mkv = Accepted \<and>
   (validate f = Rejected InvalidType) =
     (\<not> startsWith (file_type f) ''video/'' \<and> \<not> regex_search (file_name f))"
proof -
  have "validate fight_mkv = Accepted"
    by (simp add: fight_mkv_def validate_def matcher_defs MAX_FILE_SIZE_def)
  moreover have "(validate f = Rejected InvalidType) =
      (\<not> startsWith (file_type f) ''video/'' \<and> \<not> regex_search (file_name f))"
    by (simp add: validate_def)
  ultimately show ?thesis by (rule conjI)
qed

theorem invalid_type_iff_witness:
  "validate fight_mkv = Accepted \<and>
   validate \<lparr>file_name = ''notes.txt'', file_type = ''text/plain'', file_size = 2048\<rparr>
     = Rejected InvalidType"
  using invalid_type_iff_no_video_prefix_and_no_extension
    [of "\<lparr>file_name = ''notes.txt'', file_type = ''text/plain'', file_size = 2048\<rparr>"]
  by (simp add: matcher_defs)

text \<open>
  C2 (as stated, refuted): \<open>notes.txt\<close> of type \<open>text/plain\<close> and size 600000000 is over
  the limit and is not rejected with \<open>TooLarge\<close>: the type guard returns first.
\<close>

theorem big_txt_not_too_large:
  "file_size big_txt > MAX_FILE_SIZE \<and> validate big_txt \<noteq> Rejected TooLarge"
  by (simp add: big_txt_def validate_def matcher_defs MAX_FILE_SIZE_def)

text \<open>
  C2 (amended): every candidate whose size exceeds \<open>MAX_FILE_SIZE\<close> and which passes the
  type guard is rejected with \<open>TooLarge\<close>.
\<close>

theorem too_large_when_type_check_passes:
  assumes "file_size f > MAX_FILE_SIZE" and "type_check f"
  shows "validate f = Rejected TooLarge"
  using assms by (auto simp add: validate_def type_check_def)

theorem too_large_witness:
  "file_size big_mp4 > MAX_FILE_SIZE \<and> type_check big_mp4 \<and>
   validate big_mp4 = Rejected TooLarge"
proof -
  have size: "file_size big_mp4 > MAX_FILE_SIZE"
    by (simp add: big_mp4_def MAX_FILE_SIZE_def)
  have type: "type_check big_mp4"
    by (simp add: big_mp4_def type_check_def startsWith_def)
  from too_large_when_type_check_passes [OF size type] size type
  show ?thesis by simp
qed



text \<open>
  C4: every candidate whose type is one of \<open>ALLOWED_TYPES\<close> (\<open>video/mp4\<close>,
  \<open>video/quicktime\<close>, \<open>video/x-msvideo\<close>) and whose size is at most \<open>MAX_FILE_SIZE\<close>
  (524288000 bytes) is accepted.
\<close>

theorem allowed_type_within_limit_accepted:
  assumes "file_type f \<in> set ALLOWED_TYPES" and "file_size f \<le> MAX_FILE_SIZE"
  shows "validate f = Accepted \<and> MAX_FILE_SIZE = 524288000 \<and>
    set ALLOWED_TYPES = {''video/mp4'', ''video/quicktime'', ''video/x-msvideo''}"
proof -
  from assms(1) have "startsWith (file_type f) ''video/''"
    by (rule startsWith_ALLOWED_TYPES)
  with assms(2) have "validate f = Accepted"
    by (simp add: validate_def)
  moreover have "MAX_FILE_SIZE = 524288000"
    by (simp add: MAX_FILE_SIZE_def)
  moreover have "set ALLOWED_TYPES = {''video/mp4'', ''video/quicktime'', ''video/x-msvideo''}"
    by (simp add: ALLOWED_TYPES_def)
  ultimately show ?thesis by simp
qed

theorem allowed_type_within_limit_witness:
  "file_type fight_mp4 \<in> set ALLOWED_TYPES \<and> file_size fight_mp4 \<le> MAX_FILE_SIZE \<and>
   validate fight_mp4 = Accepted"
proof -
  have t: "file_type fight_mp4 \<in> set ALLOWED_TYPES"
    by (simp add: fight_mp4_def ALLOWED_TYPES_def)
  have z: "file_size fight_mp4 \<le> MAX_FILE_SIZE"
    by (simp add: fight_mp4_def MAX_FILE_SIZE_def)
  from allowed_type_within_limit_accepted [OF t z] t z
  show ?thesis by simp
qed

text \<open>
  C5: the extension fallback is case-insensitive. A candidate with an empty type whose
  name ends in a dot and a suffix that, lower-cased, is one of \<open>mp4\<close>, \<open>mov\<close>, \<open>avi\<close>
  passes the type guard, and within the size limit, as \<open>clip.MOV\<close> of size 10000000 is,
  it is accepted.
\<close>

theorem extension_fallback_case_insensitive:
  assumes "file_type f = []"
    and "file_name f = stem @ ''.'' @ ext"
    and "map to_lower ext \<in> set EXTENSIONS"
    and "file_size f \<le> MAX_FILE_SIZE"
  shows "validate f = Accepted"
proof -
  from assms(3) have "matches_at (CHR ''.'' # ext)"
    by (rule matches_at_extension)
  then have "regex_search (stem @ CHR ''.'' # ext)"
    by (rule regex_search_suffix)
  with assms(2) have "regex_search (file_name f)"
    by simp
  with assms(4) show ?thesis
    by (simp add: validate_def)
qed

theorem extension_fallback_witness:
  "file_type clip_MOV = [] \<and> file_name clip_MOV = ''clip'' @ ''.'' @ ''MOV'' \<and>
   map to_lower ''MOV'' \<in> set EXTENSIONS \<and> file_size clip_MOV \<le> MAX_FILE_SIZE \<and>
   validate clip_MOV = Accepted"
proof -
  have t: "file_type clip_MOV = []"
    by (simp add: clip_MOV_def)
  have n: "file_name clip_MOV = ''clip'' @ ''.'' @ ''MOV''"
    by (simp add: clip_MOV_def)
  have e: "map to_lower ''MOV'' \<in> set EXTENSIONS"
    by (simp add: to_lower_def matcher_defs)
  have z: "file_size clip_MOV \<le> MAX_FILE_SIZE"
    by (simp add: clip_MOV_def MAX_FILE_SIZE_def)
  from extension_fallback_case_insensitive [OF t n e z] t n e z
  show ?thesis by simp
qed

subsection \<open>Helper lemmas on number formatting\<close>

lemma to_decimal_small: "n < 10 \<Longrightarrow> to_decimal n = [digit n]"
  by (simp add: to_decimal.simps)

lemma to_decimal_large:
  "10 \<le> n \<Longrightarrow> to_decimal n = to_decimal (n div 10) @ [digit (n mod 10)]"
  by (subst to_decimal.simps) simp

lemma hundredths:
  "nat \<lfloor>(of_nat sz / (1024 * 1024) :: rat) * 100 + 1 / 2\<rfloor> = (200 * sz + 1048576) div 2097152"
proof -
  have "(of_nat sz / (1024 * 1024) :: rat) * 100 + 1 / 2 =
      of_nat (200 * sz + 1048576) / of_nat 2097152"
    by (simp add: field_simps)
  then have "\<lfloor>(of_nat sz / (1024 * 1024) :: rat) * 100 + 1 / 2\<rfloor> =
      int ((200 * sz + 1048576) div 2097152)"
    by (simp only: floor_divide_of_nat_eq)
  then show ?thesis by (simp only: nat_int)
qed

lemma digit_value_digit: "d < 10 \<Longrightarrow> digit_value (digit d) = d"
proof -
  assume "d < 10"
  then have "d = 0 \<or> d = 1 \<or> d = 2 \<or> d = 3 \<or> d = 4 \<or> d = 5 \<or> d = 6 \<or> d = 7 \<or> d = 8 \<or> d = 9"
    by arith
  then show ?thesis
    by (elim disjE) (simp_all add: digit_def digit_value_def upt_conv_Cons)
qed

lemma decimal_value_snoc:
  "decimal_value (cs @ [c]) = 10 * decimal_value cs + digit_value c"
  by (simp add: decimal_value_def)

lemma decimal_value_to_decimal: "decimal_value (to_decimal n) = n"
proof (induction n rule: to_decimal.induct)
  case (1 n)
  show ?case
  proof (cases "n < 10")
    case True
    then show ?thesis
      by (simp add: to_decimal_small decimal_value_def digit_value_digit)
  next
    case False
    with 1 have "decimal_value (to_decimal (n div 10)) = n div 10"
      by simp
    with False show ?thesis
      by (simp add: to_decimal_large decimal_value_snoc digit_value_digit)
  qed
qed

lemma decimal_value_leading_zeros:
  "decimal_value (replicate j (CHR ''0'') @ cs) = decimal_value cs"
proof -
  have zero: "digit_value (CHR ''0'') = 0"
    by (simp add: digit_value_def upt_conv_Cons)
  have "foldl (\<lambda>acc c. 10 * acc + digit_value c) 0 (replicate j (CHR ''0'')) = 0"
    by (induction j) (simp_all add: zero)
  then show ?thesis
    by (simp add: decimal_value_def)
qed

lemma to_decimal_nonempty: "to_decimal n \<noteq> []"
  by (cases "n < 10") (simp_all add: to_decimal_small to_decimal_large)

lemma toFixed2_shape:
  "\<exists>ip fp. toFixed2 x = ip @ ''.'' @ fp \<and> ip \<noteq> [] \<and> length fp = 2 \<and>
     decimal_value (ip @ fp) = nat \<lfloor>x * 100 + 1 / 2\<rfloor>"
proof -
  define n where "n = nat \<lfloor>x * 100 + 1 / 2\<rfloor>"
  define m where "m = to_decimal n"
  define m' where "m' = (if length m \<le> 2 then replicate (3 - length m) (CHR ''0'') @ m else m)"
  define k where "k = length m'"
  have fixed: "toFixed2 x = take (k - 2) m' @ ''.'' @ drop (k - 2) m'"
    by (simp add: toFixed2_def Let_def n_def m_def m'_def k_def)
  have "m \<noteq> []"
    by (simp add: m_def to_decimal_nonempty)
  then have k3: "3 \<le> k"
    by (auto simp add: k_def m'_def)
  have dv: "decimal_value m' = n"
    by (simp add: m'_def m_def decimal_value_leading_zeros decimal_value_to_decimal)
  from k3 have "take (k - 2) m' \<noteq> []"
    by (auto simp add: k_def)
  moreover from k3 have "length (drop (k - 2) m') = 2"
    by (simp add: k_def)
  moreover have "decimal_value (take (k - 2) m' @ drop (k - 2) m') = n"
    using dv by simp
  ultimately show ?thesis
    using fixed unfolding n_def by blast
qed

lemma nearest_hundredth:
  fixes x :: rat
  assumes "0 \<le> x"
  shows "\<bar>of_nat (nat \<lfloor>x * 100 + 1 / 2\<rfloor>) / 100 - x\<bar> \<le> 1 / 200"
proof -
  let ?n = "\<lfloor>x * 100 + 1 / 2\<rfloor>"
  from assms have "0 \<le> ?n"
    by simp
  then have n: "(of_nat (nat ?n) :: rat) = of_int ?n"
    by simp
  have "of_int ?n \<le> x * 100 + 1 / 2" and "x * 100 + 1 / 2 < of_int ?n + 1"
    by linarith+
  then have "\<bar>of_int ?n - x * 100\<bar> \<le> (1 / 2 :: rat)"
    by linarith
  then have "\<bar>of_int ?n / 100 - x\<bar> \<le> (1 / 200 :: rat)"
    by linarith
  with n show ?thesis
    by simp
qed

subsection \<open>Display metadata\<close>

text \<open>
  C6: \<open>describe\<close> formats the size as the byte count divided by \<open>1024 * 1024\<close>, fixed to
  two decimal places. For \<open>fight.mp4\<close> of size 50000000 it yields the name
  \<open>File: fight.mp4\<close> and the size \<open>Size: 47.68 MB\<close>; for every file the size string has
  an integer part, a point and exactly two decimals, and the number it denotes is within
  half a hundredth of \<open>size / (1024 * 1024)\<close>.
\<close>

theorem describe_two_decimals_mebibytes:
  "describe fight_mp4 = \<lparr>display_name = ''File: fight.mp4'', display_size = ''Size: 47.68 MB''\<rparr> \<and>
   display_name (describe f) = ''File: '' @ file_name f \<and>
   (\<exists>ip fp. display_size (describe f) = ''Size: '' @ ip @ ''.'' @ fp @ '' MB'' \<and>
      ip \<noteq> [] \<and> length fp = 2 \<and>
      \<bar>of_nat (decimal_value (ip @ fp)) / 100 - of_nat (file_size f) / (1024 * 1024)\<bar>
        \<le> (1 / 200 :: rat))"
proof -
  have example: "describe fight_mp4 =
      \<lparr>display_name = ''File: fight.mp4'', display_size = ''Size: 47.68 MB''\<rparr>"
    unfolding describe_def name_text_def size_text_def fight_mp4_def toFixed2_def Let_def
      hundredths File.simps
    by (simp add: to_decimal_small to_decimal_large digit_def)
  have name: "display_name (describe f) = ''File: '' @ file_name f"
    by (simp add: describe_def name_text_def)
  let ?x = "of_nat (file_size f) / (1024 * 1024) :: rat"
  obtain ip fp where shape: "toFixed2 ?x = ip @ ''.'' @ fp" "ip \<noteq> []" "length fp = 2"
    and val: "decimal_value (ip @ fp) = nat \<lfloor>?x * 100 + 1 / 2\<rfloor>"
    using toFixed2_shape [of ?x] by blast
  have "0 \<le> ?x"
    by simp
  then have "\<bar>of_nat (nat \<lfloor>?x * 100 + 1 / 2\<rfloor>) / 100 - ?x\<bar> \<le> 1 / 200"
    by (rule nearest_hundredth)
  with val have near: "\<bar>of_nat (decimal_value (ip @ fp)) / 100 - ?x\<bar> \<le> 1 / 200"
    by simp
  from shape(1) have "display_size (describe f) = ''Size: '' @ ip @ ''.'' @ fp @ '' MB''"
    by (simp add: describe_def size_text_def)
  with shape(2,3) near
  have "\<exists>ip fp. display_size (describe f) = ''Size: '' @ ip @ ''.'' @ fp @ '' MB'' \<and>
      ip \<noteq> [] \<and> length fp = 2 \<and>
      \<bar>of_nat (decimal_value (ip @ fp)) / 100 - ?x\<bar> \<le> (1 / 200 :: rat)"
    by blast
  with example name show ?thesis
    by blast
qed

theorem describe_two_decimals_witness:
  "display_name (describe fight_mp4) = ''File: fight.mp4'' \<and>
   display_size (describe fight_mp4) = ''Size: 47.68 MB''"
  using describe_two_decimals_mebibytes [of fight_mp4]
  by simp

subsection \<open>Helper lemmas on the listeners\<close>

lemma handleFile_rejected:
  "validate f = Rejected r \<Longrightarrow> \<exists>msg. handleFile f s = alert msg s"
  by (cases r) (auto simp add: handleFile_validate)

lemma handleFile_accepted:
  "validate f = Accepted \<Longrightarrow>
   handleFile f s =
     s\<lparr>object_urls := object_urls s @ [f],
       videoPlayer_src := BlobUrl (length (object_urls s)),
       fileName_textContent := name_text f,
       fileSize_textContent := size_text f,
       uploadContainer_classList := classList_add [''hidden''] (uploadContainer_classList s),
       videoPreview_classList := classList_remove [''hidden''] (videoPreview_classList s)\<rparr>"
  by (simp add: handleFile_validate)

lemma object_urls_handleFile:
  "\<exists>new. object_urls (handleFile f s) = object_urls s @ new"
  by (simp add: handleFile_def alert_def Let_def)

lemma object_urls_fire: "\<exists>new. object_urls (fire e s) = object_urls s @ new"
proof (cases e)
  case (Drop files)
  define s1 where "s1 = uploadContainer_dragleave s"
  have same: "object_urls s1 = object_urls s"
    by (simp add: s1_def uploadContainer_dragleave_def)
  show ?thesis
  proof (cases files)
    case Nil
    with Drop show ?thesis
      by (simp add: uploadContainer_drop_def Let_def)
  next
    case (Cons f rest)
    with Drop have "fire e s = handleFile f s1"
      by (simp add: uploadContainer_drop_def Let_def s1_def uploadContainer_dragleave_def)
    moreover obtain new where "object_urls (handleFile f s1) = object_urls s1 @ new"
      using object_urls_handleFile by blast
    ultimately show ?thesis
      using same by simp
  qed
next
  case (Change files)
  then show ?thesis
    using object_urls_handleFile
    by (cases files) (simp_all add: videoInput_change_def)
qed (simp_all add: uploadBtn_click_def uploadContainer_click_def uploadContainer_dragover_def
    uploadContainer_dragleave_def changeBtn_click_def analyzeBtn_click_def alert_def)

lemma object_urls_run: "\<exists>new. object_urls (run es s) = object_urls s @ new"
proof (induction es arbitrary: s)
  case Nil
  then show ?case by simp
next
  case (Cons e es)
  obtain n1 where "object_urls (fire e s) = object_urls s @ n1"
    using object_urls_fire by blast
  moreover obtain n2 where "object_urls (run es (fire e s)) = object_urls (fire e s) @ n2"
    using Cons.IH by blast
  ultimately show ?case by simp
qed

lemma resolve_append:
  "resolve s u = Some a \<Longrightarrow> object_urls s' = object_urls s @ new \<Longrightarrow> resolve s' u = Some a"
  by (auto simp add: resolve_def nth_append split: if_splits)

lemma hidden_kept_by_highlighting:
  "(''hidden'' \<in> set (classList_remove [''border-sky-500'', ''bg-sky-500/10'']
       (classList_add [''border-white/30''] cl))) = (''hidden'' \<in> set cl)"
  by (auto simp add: classList_remove_def classList_add_def)

subsection \<open>Resources of staged files\<close>

text \<open>
  C7 (as stated, refuted): \<open>fight.mp4\<close> is selected and staged under the object URL 0;
  then \<open>clip.MOV\<close> is selected and staged under the URL 1. The URL 0 is still allocated
  afterwards, and still stands for \<open>fight.mp4\<close>: it has not been released.
\<close>

theorem first_object_url_not_released:
  "videoPlayer_src (fire (Change [fight_mp4]) page0) = BlobUrl 0 \<and>
   resolve (fire (Change [fight_mp4]) page0) 0 = Some fight_mp4 \<and>
   videoPlayer_src (fire (Change [clip_MOV]) (fire (Change [fight_mp4]) page0)) = BlobUrl 1 \<and>
   resolve (fire (Change [clip_MOV]) (fire (Change [fight_mp4]) page0)) 0 \<noteq> None \<and>
   resolve (fire (Change [clip_MOV]) (fire (Change [fight_mp4]) page0)) 0 = Some fight_mp4"
  by (simp add: videoInput_change_def handleFile_def resolve_def Let_def
      fight_mp4_def clip_MOV_def page0_def matcher_defs MAX_FILE_SIZE_def)

text \<open>
  C7 (amended): when a file B is selected and accepted while a file A is staged, the player
  is pointed at a newly created object URL for B, and A's object URL is not released: it
  stays allocated, standing for A, then and after every later sequence of events. No
  listener of the script releases an object URL.
\<close>

theorem object_url_stays_allocated:
  assumes "videoPlayer_src s = BlobUrl u"
    and "resolve s u = Some a"
    and "validate b = Accepted"
  shows "videoPlayer_src (handleFile b s) = BlobUrl (length (object_urls s)) \<and>
    length (object_urls s) \<noteq> u \<and>
    resolve (handleFile b s) (length (object_urls s)) = Some b \<and>
    resolve (handleFile b s) u = Some a \<and>
    resolve (run es (handleFile b s)) u = Some a"
proof -
  from assms(3) have src: "videoPlayer_src (handleFile b s) = BlobUrl (length (object_urls s))"
    by (simp add: handleFile_accepted)
  from assms(2) have fresh: "length (object_urls s) \<noteq> u"
    by (auto simp add: resolve_def split: if_splits)
  from assms(3) have new: "resolve (handleFile b s) (length (object_urls s)) = Some b"
    by (simp add: handleFile_accepted resolve_def)
  obtain n1 where "object_urls (handleFile b s) = object_urls s @ n1"
    using object_urls_handleFile by blast
  with assms(2) have kept: "resolve (handleFile b s) u = Some a"
    by (rule resolve_append)
  obtain n2 where "object_urls (run es (handleFile b s)) = object_urls (handleFile b s) @ n2"
    using object_urls_run by blast
  with kept have "resolve (run es (handleFile b s)) u = Some a"
    by (rule resolve_append)
  with src fresh new kept show ?thesis
    by simp
qed

theorem object_url_stays_allocated_witness:
  "videoPlayer_src (handleFile fight_mp4 page0) = BlobUrl 0 \<and>
   resolve (handleFile fight_mp4 page0) 0 = Some fight_mp4 \<and>
   validate clip_MOV = Accepted \<and>
   videoPlayer_src (handleFile clip_MOV (handleFile fight_mp4 page0)) = BlobUrl 1 \<and>
   resolve (handleFile clip_MOV (handleFile fight_mp4 page0)) 1 = Some clip_MOV \<and>
   resolve (handleFile clip_MOV (handleFile fight_mp4 page0)) 0 = Some fight_mp4 \<and>
   resolve (run [Click_changeBtn, Change [big_mp4]]
     (handleFile clip_MOV (handleFile fight_mp4 page0))) 0 = Some fight_mp4"
proof -
  have staged: "handleFile fight_mp4 page0 =
      page0\<lparr>object_urls := [fight_mp4],
        videoPlayer_src := BlobUrl 0,
        fileName_textContent := name_text fight_mp4,
        fileSize_textContent := size_text fight_mp4,
        uploadContainer_classList := [''border-white/30'', ''hidden''],
        videoPreview_classList := []\<rparr>"
    by (simp add: handleFile_def Let_def fight_mp4_def page0_def startsWith_def
        MAX_FILE_SIZE_def classList_add_def classList_remove_def)
  have src: "videoPlayer_src (handleFile fight_mp4 page0) = BlobUrl 0"
    by (simp add: staged)
  have res: "resolve (handleFile fight_mp4 page0) 0 = Some fight_mp4"
    by (simp add: staged resolve_def)
  have acc: "validate clip_MOV = Accepted"
    by (simp add: validate_def clip_MOV_def matcher_defs MAX_FILE_SIZE_def)
  have len: "length (object_urls (handleFile fight_mp4 page0)) = 1"
    by (simp add: staged)
  from object_url_stays_allocated
    [OF src res acc, of "[Click_changeBtn, Change [big_mp4]]"] src res acc
  show ?thesis
    by (simp add: len)
qed

subsection \<open>Idempotence of the display\<close>

text \<open>
  C8: \<open>describe\<close> is idempotent. What \<open>handleFile\<close> displays for an accepted file is
  \<open>describe\<close> of that file, whatever the page was before; displaying the same file a
  second time yields the same name string and the same size string.
\<close>

theorem describe_idempotent:
  assumes "validate f = Accepted"
  shows "displayed (handleFile f s) = describe f \<and>
    displayed (handleFile f (handleFile f s)) = displayed (handleFile f s) \<and>
    displayed (handleFile f s') = displayed (handleFile f s)"
  using assms by (simp add: handleFile_accepted displayed_def describe_def)

theorem describe_idempotent_witness:
  "validate fight_mp4 = Accepted \<and>
   displayed (handleFile fight_mp4 page0) = describe fight_mp4 \<and>
   displayed (handleFile fight_mp4 (handleFile fight_mp4 page0)) =
     displayed (handleFile fight_mp4 page0)"
proof -
  have acc: "validate fight_mp4 = Accepted"
    by (simp add: validate_def fight_mp4_def startsWith_def MAX_FILE_SIZE_def)
  from describe_idempotent [OF acc, of page0 page0] acc
  show ?thesis by simp
qed

subsection \<open>Events without a file, and rejections\<close>

text \<open>
  C9: a selection event that offers no file is ignored. The \<open>change\<close> listener leaves the
  page as it is; the \<open>drop\<close> listener only takes the drag highlighting off the container,
  as \<open>dragleave\<close> does. Neither shows an alert, creates an object URL or changes the
  state of the session.
\<close>

theorem empty_selection_ignored:
  "videoInput_change [] s = s \<and>
   uploadContainer_drop [] s = uploadContainer_dragleave s \<and>
   alerts (uploadContainer_drop [] s) = alerts s \<and>
   object_urls (uploadContainer_drop [] s) = object_urls s \<and>
   session (uploadContainer_drop [] s) = session s"
  by (simp add: videoInput_change_def uploadContainer_drop_def uploadContainer_dragleave_def
      session_def hidden_kept_by_highlighting Let_def)

theorem empty_selection_ignored_witness:
  "fire (Change []) (handleFile fight_mp4 page0) = handleFile fight_mp4 page0 \<and>
   alerts (fire (Drop []) (handleFile fight_mp4 page0)) = [] \<and>
   session (fire (Drop []) (handleFile fight_mp4 page0)) = session (handleFile fight_mp4 page0)"
proof -
  let ?s = "handleFile fight_mp4 page0"
  have quiet: "alerts ?s = []"
    by (simp add: handleFile_def Let_def fight_mp4_def page0_def startsWith_def MAX_FILE_SIZE_def)
  from empty_selection_ignored [of ?s]
  have change: "videoInput_change [] ?s = ?s"
    and drop_alerts: "alerts (uploadContainer_drop [] ?s) = alerts ?s"
    and drop_session: "session (uploadContainer_drop [] ?s) = session ?s"
    by blast+
  show ?thesis
    by (simp add: change drop_alerts drop_session quiet)
qed

text \<open>
  C10: rejection is atomic. When the guards reject a file, for either reason,
  \<open>handleFile\<close> changes nothing of the page but the alerts shown: no object URL is
  created, and the staged source, the displayed metadata and the state of the session
  are what they were.
\<close>

theorem rejection_atomic:
  assumes "validate f = Rejected r"
  shows "handleFile f s = s\<lparr>alerts := alerts (handleFile f s)\<rparr> \<and>
    object_urls (handleFile f s) = object_urls s \<and>
    videoPlayer_src (handleFile f s) = videoPlayer_src s \<and>
    displayed (handleFile f s) = displayed s \<and>
    session (handleFile f s) = session s"
proof -
  from assms obtain msg where "handleFile f s = alert msg s"
    using handleFile_rejected by blast
  then show ?thesis
    by (simp add: alert_def displayed_def session_def)
qed

theorem rejection_atomic_witness:
  "validate big_mp4 = Rejected TooLarge \<and>
   validate big_txt = Rejected InvalidType \<and>
   object_urls (handleFile big_mp4 (handleFile fight_mp4 page0)) =
     object_urls (handleFile fight_mp4 page0) \<and>
   session (handleFile big_mp4 (handleFile fight_mp4 page0)) =
     session (handleFile fight_mp4 page0) \<and>
   session (handleFile big_txt (handleFile fight_mp4 page0)) =
     session (handleFile fight_mp4 page0)"
proof -
  have large: "validate big_mp4 = Rejected TooLarge"
    by (simp add: validate_def big_mp4_def startsWith_def MAX_FILE_SIZE_def)
  have invalid: "validate big_txt = Rejected InvalidType"
    by (simp add: validate_def big_txt_def matcher_defs)
  from rejection_atomic [OF large, of "handleFile fight_mp4 page0"]
    rejection_atomic [OF invalid, of "handleFile fight_mp4 page0"] large invalid
  show ?thesis by simp
qed

end
